theory Spec2Isabelle
  imports Complex_Main "HOL-Library.Sublist" "HOL-Library.Log_Nat"
begin

section \<open>JavaScript numbers\<close>

text \<open>
  Every number of the calculator is a JavaScript \<open>number\<close>, an IEEE-754 double. A finite
  double is modelled by the rational it denotes, and the three non-finite values are
  kept apart: \<open>x / 0\<close> is an infinity or \<open>NaN\<close>, never an exception. Every arithmetic
  result is rounded to the nearest double, ties to the even significand; a result of
  magnitude \<open>2^1024 - 2^970\<close> or more becomes an infinity and a tiny one becomes a
  subnormal or zero. The sign of zero is not modelled.
  A \<open>null\<close> coming from an emptied number field behaves as \<open>Num 0\<close> in every operation
  used below (\<open>*\<close>, \<open>/\<close>, \<open>> 0\<close>, \<open>Math.ceil\<close>), and \<open>undefined\<close> behaves as \<open>NaN\<close>.
\<close>

datatype jsnum = Num rat | PosInf | NegInf | NaN

fun js_neg :: "jsnum \<Rightarrow> jsnum" where
  "js_neg (Num a) = Num (- a)"
| "js_neg PosInf = NegInf"
| "js_neg NegInf = PosInf"
| "js_neg NaN = NaN"

text \<open>
  For a positive rational \<open>a\<close>, the integer \<open>k\<close> with \<open>2^k \<le> a < 2^(k+1)\<close>: the
  difference of the bit lengths of numerator and denominator, or one less.
\<close>

definition floor_log2 :: "rat \<Rightarrow> int" where
  "floor_log2 a =
     (let (p, q) = quotient_of a; k = bitlen p - bitlen q
      in if 2 powi k \<le> a then k else k - 1)"

text \<open>The nearest integer, a tie going to the even one.\<close>

definition round_half_even :: "rat \<Rightarrow> int" where
  "round_half_even x =
     (let f = \<lfloor>x\<rfloor>; d = x - of_int f
      in if d < 1 / 2 then f
         else if 1 / 2 < d then f + 1
         else if even f then f
         else f + 1)"

text \<open>
  Rounding a positive rational to a double. The unit in the last place is \<open>2^e\<close>, 52
  binary places below the leading bit and never below \<open>2^-1074\<close>; the significand \<open>m\<close>
  is \<open>a / 2^e\<close> rounded, at most \<open>2^53\<close>. The result \<open>m * 2^e\<close> reaches \<open>2^1024\<close>, and
  is an infinity, exactly when \<open>e\<close> is above 971, or is 971 with \<open>m = 2^53\<close>.
\<close>

definition round_magnitude :: "rat \<Rightarrow> jsnum" where
  "round_magnitude a =
     (let e = max (floor_log2 a - 52) (- 1074);
          m = round_half_even (a / 2 powi e)
      in if 971 < e \<or> (e = 971 \<and> 2 ^ 53 \<le> m) then PosInf
         else Num (of_int m * 2 powi e))"

definition toDouble :: "rat \<Rightarrow> jsnum" where
  "toDouble x =
     (if x = 0 then Num 0
      else if 0 < x then round_magnitude x
      else js_neg (round_magnitude (- x)))"

fun js_mul :: "jsnum \<Rightarrow> jsnum \<Rightarrow> jsnum" where
  "js_mul (Num a) (Num b) = toDouble (a * b)"
| "js_mul (Num a) PosInf = (if a = 0 then NaN else if 0 < a then PosInf else NegInf)"
| "js_mul (Num a) NegInf = (if a = 0 then NaN else if 0 < a then NegInf else PosInf)"
| "js_mul PosInf (Num b) = (if b = 0 then NaN else if 0 < b then PosInf else NegInf)"
| "js_mul NegInf (Num b) = (if b = 0 then NaN else if 0 < b then NegInf else PosInf)"
| "js_mul PosInf PosInf = PosInf"
| "js_mul PosInf NegInf = NegInf"
| "js_mul NegInf PosInf = NegInf"
| "js_mul NegInf NegInf = PosInf"
| "js_mul NaN y = NaN"
| "js_mul x NaN = NaN"

fun js_div :: "jsnum \<Rightarrow> jsnum \<Rightarrow> jsnum" where
  "js_div (Num a) (Num b) =
     (if b = 0 then (if a = 0 then NaN else if 0 < a then PosInf else NegInf)
      else toDouble (a / b))"
| "js_div (Num a) PosInf = Num 0"
| "js_div (Num a) NegInf = Num 0"
| "js_div PosInf (Num b) = (if 0 \<le> b then PosInf else NegInf)"
| "js_div NegInf (Num b) = (if 0 \<le> b then NegInf else PosInf)"
| "js_div PosInf PosInf = NaN"
| "js_div PosInf NegInf = NaN"
| "js_div NegInf PosInf = NaN"
| "js_div NegInf NegInf = NaN"
| "js_div NaN y = NaN"
| "js_div x NaN = NaN"

text \<open>
  Addition. Adding zero to a double gives that double, with no rounding; this case is
  written out, so that it holds of every \<open>Num a\<close>.
\<close>

fun js_add :: "jsnum \<Rightarrow> jsnum \<Rightarrow> jsnum" where
  "js_add (Num a) (Num b) =
     (if b = 0 then Num a else if a = 0 then Num b else toDouble (a + b))"
| "js_add (Num a) PosInf = PosInf"
| "js_add (Num a) NegInf = NegInf"
| "js_add PosInf (Num b) = PosInf"
| "js_add NegInf (Num b) = NegInf"
| "js_add PosInf PosInf = PosInf"
| "js_add PosInf NegInf = NaN"
| "js_add NegInf PosInf = NaN"
| "js_add NegInf NegInf = NegInf"
| "js_add NaN y = NaN"
| "js_add x NaN = NaN"

text \<open>\<open>x > 0\<close>: false for \<open>NaN\<close>, for zero and for every negative value.\<close>

fun js_positive :: "jsnum \<Rightarrow> bool" where
  "js_positive (Num a) = (0 < a)"
| "js_positive PosInf = True"
| "js_positive NegInf = False"
| "js_positive NaN = False"

text \<open>\<open>x < 0\<close>: false for \<open>NaN\<close>.\<close>

fun js_negative :: "jsnum \<Rightarrow> bool" where
  "js_negative (Num a) = (a < 0)"
| "js_negative PosInf = False"
| "js_negative NegInf = True"
| "js_negative NaN = False"

text \<open>
  \<open>Math.ceil\<close>: the least integer not below a finite value, which is a double whenever
  the value is one; the rest is left alone.
\<close>

fun Math_ceil :: "jsnum \<Rightarrow> jsnum" where
  "Math_ceil (Num a) = Num (of_int \<lceil>a\<rceil>)"
| "Math_ceil x = x"

text \<open>\<open>x || y\<close> on numbers: \<open>NaN\<close> and zero are falsy.\<close>

definition js_or :: "jsnum \<Rightarrow> jsnum \<Rightarrow> jsnum" where
  "js_or x y = (if x = NaN \<or> x = Num 0 then y else x)"

fun is_finite :: "jsnum \<Rightarrow> bool" where
  "is_finite (Num a) = True"
| "is_finite x = False"

section \<open>Strings\<close>

text \<open>
  A string is a list of characters. \<open>toLowerCase\<close> is modelled on the letters \<open>A\<close> to \<open>Z\<close>;
  every other character is left as it is. \<open>s.includes(t)\<close> holds when \<open>t\<close> occurs in \<open>s\<close>
  as a contiguous block.
\<close>

definition toLowerCaseChar :: "char \<Rightarrow> char" where
  "toLowerCaseChar c =
     (case map_of (zip ''ABCDEFGHIJKLMNOPQRSTUVWXYZ'' ''abcdefghijklmnopqrstuvwxyz'') c of
        Some l \<Rightarrow> l
      | None \<Rightarrow> c)"

definition toLowerCase :: "string \<Rightarrow> string" where
  "toLowerCase s = map toLowerCaseChar s"

definition str_includes :: "string \<Rightarrow> string \<Rightarrow> bool" where
  "str_includes s t = sublist t s"

section \<open>Price parsing\<close>

text \<open>The character class \<open>[\d.]\<close> of both parsers, and \<open>\d\<close> alone.\<close>

definition isPriceChar :: "char \<Rightarrow> bool" where
  "isPriceChar c = (c \<in> set ''0123456789.'')"

definition isDigit :: "char \<Rightarrow> bool" where
  "isDigit c = (c \<in> set ''0123456789'')"

definition digitValue :: "char \<Rightarrow> nat" where
  "digitValue c = (case map_of (zip ''0123456789'' [0, 1, 2, 3, 4, 5, 6, 7, 8, 9]) c of
                     Some d \<Rightarrow> d
                   | None \<Rightarrow> 0)"

definition digitsValue :: "string \<Rightarrow> nat" where
  "digitsValue ds = foldl (\<lambda>a c. 10 * a + digitValue c) 0 ds"

text \<open>The exact value of the decimal literal with the given integer and fraction digits.\<close>

definition decimalValue :: "string \<Rightarrow> string \<Rightarrow> rat" where
  "decimalValue ip fp = of_nat (digitsValue ip) + of_nat (digitsValue fp) / 10 ^ length fp"

text \<open>
  \<open>parseFloat\<close> on the strings the parsers give it, which hold digits and decimal points
  only: the longest prefix that is a decimal literal (digits, at most one point, digits,
  with a digit on at least one side) is read and its value rounded to the nearest
  double, and \<open>NaN\<close> is returned when there is none. Signs, exponents, leading blanks
  and the word \<open>Infinity\<close> cannot occur in such a string.
\<close>

definition parseFloat :: "string \<Rightarrow> jsnum" where
  "parseFloat s =
     (let ip = takeWhile isDigit s; rest = dropWhile isDigit s
      in case rest of
           [] \<Rightarrow> if ip = [] then NaN else toDouble (decimalValue ip [])
         | c # r \<Rightarrow>
             if c = CHR ''.'' then
               (let fp = takeWhile isDigit r
                in if ip = [] \<and> fp = [] then NaN else toDouble (decimalValue ip fp))
             else if ip = [] then NaN
             else toDouble (decimalValue ip []))"

text \<open>
  \<open>priceStr.match(/[\d.]+/)\<close>: the first maximal run of digits and points, absent when the
  text has neither.
\<close>

definition matchPriceRun :: "string \<Rightarrow> string option" where
  "matchPriceRun s =
     (let rest = dropWhile (\<lambda>c. \<not> isPriceChar c) s
      in if rest = [] then None else Some (takeWhile isPriceChar rest))"

text \<open>
  The calculator's own \<open>parsePrice\<close> (the wizard component). The argument is \<open>None\<close> for
  \<open>null\<close> and for the \<open>undefined\<close> that \<open>product?.billed_annually\<close> gives on an absent
  product.
\<close>

definition parsePrice :: "string option \<Rightarrow> jsnum" where
  "parsePrice priceStr =
     (case priceStr of
        None \<Rightarrow> Num 0
      | Some s \<Rightarrow>
          if s = [] then Num 0
          else (case matchPriceRun s of
                  Some m \<Rightarrow> parseFloat m
                | None \<Rightarrow> Num 0))"

text \<open>\<open>priceStr.replace(/[^\d.]/g, '')\<close>: every other character deleted.\<close>

definition cleaned :: "string \<Rightarrow> string" where
  "cleaned s = filter isPriceChar s"

text \<open>The shared utility \<open>parsePrice\<close> of \<open>lib/utils\<close>.\<close>

definition utils_parsePrice :: "string option \<Rightarrow> jsnum" where
  "utils_parsePrice priceStr =
     (case priceStr of
        None \<Rightarrow> Num 0
      | Some s \<Rightarrow>
          if s = [] \<or> s = ''-'' \<or> s = [] then Num 0
          else js_or (parseFloat (cleaned s)) (Num 0))"

definition parsePercentage :: "string option \<Rightarrow> jsnum" where
  "parsePercentage priceStr =
     (case priceStr of
        None \<Rightarrow> Num 0
      | Some s \<Rightarrow>
          if s = [] \<or> \<not> str_includes s ''%'' then Num 0
          else js_or (parseFloat (cleaned s)) (Num 0))"

section \<open>The catalog and the wizard's inputs\<close>

text \<open>
  A catalog record, with the three fields the calculator reads. The price text may be
  \<open>null\<close>.
\<close>

record Product =
  product :: string
  billing_unit :: string
  billed_annually :: "string option"

datatype retention = Days3 | Days7 | Days15 | Days30

text \<open>The template literal \<open>`${retentionDays}-day`\<close>.\<close>

fun retentionToken :: "retention \<Rightarrow> string" where
  "retentionToken Days3 = ''3-day''"
| "retentionToken Days7 = ''7-day''"
| "retentionToken Days15 = ''15-day''"
| "retentionToken Days30 = ''30-day''"

record wizard =
  ingestedLogsGB :: jsnum
  avgLogSizeKB :: jsnum
  indexingPercentage :: jsnum
  retentionDays :: retention
  enableFlexStarter :: bool
  enableFlexStorage :: bool
  enableForwarding :: bool
  flexStarterEvents :: jsnum
  flexStorageEvents :: jsnum
  forwardingGB :: jsnum

text \<open>The values the component starts with.\<close>

definition initial :: wizard where
  "initial =
     \<lparr>ingestedLogsGB = Num 100, avgLogSizeKB = Num 2, indexingPercentage = Num 15,
      retentionDays = Days15,
      enableFlexStarter = False, enableFlexStorage = False, enableForwarding = False,
      flexStarterEvents = Num 10, flexStorageEvents = Num 50, forwardingGB = Num 20\<rparr>"

section \<open>Derived quantities\<close>

definition totalLogsPerMonth :: "wizard \<Rightarrow> jsnum" where
  "totalLogsPerMonth w =
     js_div (js_mul (js_mul (ingestedLogsGB w) (Num 1024)) (Num 1024)) (avgLogSizeKB w)"

definition indexedLogsCount :: "wizard \<Rightarrow> jsnum" where
  "indexedLogsCount w =
     js_mul (totalLogsPerMonth w) (js_div (indexingPercentage w) (Num 100))"

definition indexedLogsInMillions :: "wizard \<Rightarrow> jsnum" where
  "indexedLogsInMillions w = js_div (indexedLogsCount w) (Num 1000000)"

section \<open>Product lookup\<close>

text \<open>
  Each lookup is \<open>products.find(p => ...)\<close>; the predicates of the five arrow functions
  are named here, and \<open>Array.prototype.find\<close> is \<^const>\<open>find\<close>.
\<close>

definition ingestionCriteria :: "Product \<Rightarrow> bool" where
  "ingestionCriteria p =
     (str_includes (toLowerCase (product p)) ''logs''
      \<and> str_includes (toLowerCase (product p)) ''ingestion'')"

definition indexedCriteria :: "retention \<Rightarrow> Product \<Rightarrow> bool" where
  "indexedCriteria r p =
     (str_includes (toLowerCase (product p)) ''indexed log events''
      \<and> str_includes (toLowerCase (billing_unit p)) (retentionToken r))"

definition nameCriteria :: "string \<Rightarrow> Product \<Rightarrow> bool" where
  "nameCriteria n p = (product p = n)"

definition ingestionProduct :: "Product list \<Rightarrow> Product option" where
  "ingestionProduct products = find ingestionCriteria products"

definition indexedProduct :: "Product list \<Rightarrow> wizard \<Rightarrow> Product option" where
  "indexedProduct products w = find (indexedCriteria (retentionDays w)) products"

definition flexStarterProduct :: "Product list \<Rightarrow> Product option" where
  "flexStarterProduct products = find (nameCriteria ''Flex Logs Starter'') products"

definition flexStorageProduct :: "Product list \<Rightarrow> Product option" where
  "flexStorageProduct products = find (nameCriteria ''Flex Logs Storage'') products"

definition forwardingProduct :: "Product list \<Rightarrow> Product option" where
  "forwardingProduct products =
     find (nameCriteria ''Logs - Forwarding to Custom Destinations'') products"

section \<open>Costs\<close>

text \<open>\<open>p?.billed_annually\<close>: \<open>undefined\<close> on an absent product.\<close>

definition price_text :: "Product option \<Rightarrow> string option" where
  "price_text m = (case m of None \<Rightarrow> None | Some p \<Rightarrow> billed_annually p)"

definition ingestionPrice :: "Product list \<Rightarrow> jsnum" where
  "ingestionPrice products = parsePrice (price_text (ingestionProduct products))"

definition indexedPrice :: "Product list \<Rightarrow> wizard \<Rightarrow> jsnum" where
  "indexedPrice products w = parsePrice (price_text (indexedProduct products w))"

definition flexStarterPrice :: "Product list \<Rightarrow> jsnum" where
  "flexStarterPrice products = parsePrice (price_text (flexStarterProduct products))"

definition flexStoragePrice :: "Product list \<Rightarrow> jsnum" where
  "flexStoragePrice products = parsePrice (price_text (flexStorageProduct products))"

definition forwardingPrice :: "Product list \<Rightarrow> jsnum" where
  "forwardingPrice products = parsePrice (price_text (forwardingProduct products))"

definition ingestionCost :: "Product list \<Rightarrow> wizard \<Rightarrow> jsnum" where
  "ingestionCost products w = js_mul (ingestedLogsGB w) (ingestionPrice products)"

definition indexedCost :: "Product list \<Rightarrow> wizard \<Rightarrow> jsnum" where
  "indexedCost products w = js_mul (indexedLogsInMillions w) (indexedPrice products w)"

definition flexStarterCost :: "Product list \<Rightarrow> wizard \<Rightarrow> jsnum" where
  "flexStarterCost products w =
     (if enableFlexStarter w then js_mul (flexStarterEvents w) (flexStarterPrice products)
      else Num 0)"

definition flexStorageCost :: "Product list \<Rightarrow> wizard \<Rightarrow> jsnum" where
  "flexStorageCost products w =
     (if enableFlexStorage w then js_mul (flexStorageEvents w) (flexStoragePrice products)
      else Num 0)"

definition forwardingCost :: "Product list \<Rightarrow> wizard \<Rightarrow> jsnum" where
  "forwardingCost products w =
     (if enableForwarding w then js_mul (forwardingGB w) (forwardingPrice products)
      else Num 0)"

definition additionalCost :: "Product list \<Rightarrow> wizard \<Rightarrow> jsnum" where
  "additionalCost products w =
     js_add (js_add (flexStarterCost products w) (flexStorageCost products w))
       (forwardingCost products w)"

definition totalMonthlyCost :: "Product list \<Rightarrow> wizard \<Rightarrow> jsnum" where
  "totalMonthlyCost products w =
     js_add (js_add (ingestionCost products w) (indexedCost products w))
       (additionalCost products w)"

text \<open>The yearly figure of the summary panel, \<open>totalMonthlyCost * 12\<close>.\<close>

definition yearlyCost :: "Product list \<Rightarrow> wizard \<Rightarrow> jsnum" where
  "yearlyCost products w = js_mul (totalMonthlyCost products w) (Num 12)"

text \<open>
  The condition of the warning "Some products not found", which is also the condition
  that disables the button: \<open>!ingestionProduct || !indexedProduct\<close>.
\<close>

definition notFoundWarning :: "Product list \<Rightarrow> wizard \<Rightarrow> bool" where
  "notFoundWarning products w =
     (ingestionProduct products = None \<or> indexedProduct products w = None)"

section \<open>Quote items\<close>

record QuoteItem =
  item_product :: Product
  quantity :: jsnum

text \<open>
  The array \<open>items\<close> of \<open>addToQuote\<close> when the last \<open>if\<close> is reached: five conditional
  pushes, in the order of the source.
\<close>

definition addToQuote_items :: "Product list \<Rightarrow> wizard \<Rightarrow> QuoteItem list" where
  "addToQuote_items products w =
     (let items = [];
          items =
            (case ingestionProduct products of
               Some p \<Rightarrow>
                 if js_positive (ingestedLogsGB w)
                 then items @ [\<lparr>item_product = p, quantity = Math_ceil (ingestedLogsGB w)\<rparr>]
                 else items
             | None \<Rightarrow> items);
          items =
            (case indexedProduct products w of
               Some p \<Rightarrow>
                 if js_positive (indexedLogsInMillions w)
                 then items @ [\<lparr>item_product = p, quantity = Math_ceil (indexedLogsInMillions w)\<rparr>]
                 else items
             | None \<Rightarrow> items);
          items =
            (if enableFlexStarter w then
               (case flexStarterProduct products of
                  Some p \<Rightarrow>
                    if js_positive (flexStarterEvents w)
                    then items @ [\<lparr>item_product = p, quantity = Math_ceil (flexStarterEvents w)\<rparr>]
                    else items
                | None \<Rightarrow> items)
             else items);
          items =
            (if enableFlexStorage w then
               (case flexStorageProduct products of
                  Some p \<Rightarrow>
                    if js_positive (flexStorageEvents w)
                    then items @ [\<lparr>item_product = p, quantity = Math_ceil (flexStorageEvents w)\<rparr>]
                    else items
                | None \<Rightarrow> items)
             else items);
          items =
            (if enableForwarding w then
               (case forwardingProduct products of
                  Some p \<Rightarrow>
                    if js_positive (forwardingGB w)
                    then items @ [\<lparr>item_product = p, quantity = Math_ceil (forwardingGB w)\<rparr>]
                    else items
                | None \<Rightarrow> items)
             else items)
      in items)"

text \<open>
  \<open>addToQuote\<close> itself returns nothing; what it does is call \<open>onAddToQuote\<close>. The model
  returns the calls it makes, each with its argument, in order.
\<close>

definition addToQuote :: "Product list \<Rightarrow> wizard \<Rightarrow> QuoteItem list list" where
  "addToQuote products w =
     (let items = addToQuote_items products w
      in if length items > 0 then [items] else [])"

section \<open>The rules as the specification words them\<close>

text \<open>
  The specification's rule for one category of the quote: an item only for a matched
  product whose quantity, taken as 0 when the category is switched off, is strictly
  positive; the item's quantity is the ceiling of the continuous one.
\<close>

definition quote_entry :: "Product option \<Rightarrow> bool \<Rightarrow> jsnum \<Rightarrow> QuoteItem list" where
  "quote_entry m enabled q =
     (case m of
        None \<Rightarrow> []
      | Some p \<Rightarrow>
          if js_positive (if enabled then q else Num 0)
          then [\<lparr>item_product = p, quantity = Math_ceil q\<rparr>]
          else [])"


section \<open>A small catalog\<close>

text \<open>
  A catalog to run the calculator on: two records match the ingestion criteria, the
  indexed product is there for 7 and for 15 days of retention only, and one of the three
  add-ons is missing.
\<close>

definition sample_catalog :: "Product list" where
  "sample_catalog =
     [\<lparr>product = ''Flex Logs Starter'', billing_unit = ''per 1M events'',
       billed_annually = Some ''$0.60''\<rparr>,
      \<lparr>product = ''Logs - Ingestion'', billing_unit = ''per GB'',
       billed_annually = Some ''$0.10''\<rparr>,
      \<lparr>product = ''Indexed Log Events'', billing_unit = ''per 1M (7-Day retention)'',
       billed_annually = Some ''$1.27''\<rparr>,
      \<lparr>product = ''Indexed Log Events'', billing_unit = ''per 1M (15-day retention)'',
       billed_annually = Some ''$1.70''\<rparr>,
      \<lparr>product = ''LOGS INGESTION (legacy)'', billing_unit = ''per GB'',
       billed_annually = Some ''-''\<rparr>,
      \<lparr>product = ''Logs - Forwarding to Custom Destinations'', billing_unit = ''per GB'',
       billed_annually = Some ''$0.25''\<rparr>]"

text \<open>The starting inputs with the three add-ons switched on.\<close>

definition all_enabled :: wizard where
  "all_enabled =
     initial\<lparr>enableFlexStarter := True, enableFlexStorage := True, enableForwarding := True\<rparr>"

text \<open>
  Inputs with nothing to bill: no volume, and add-on counts that are zero, negative and
  \<open>NaN\<close>.
\<close>

definition nothing_to_bill :: wizard where
  "nothing_to_bill =
     initial\<lparr>ingestedLogsGB := Num 0, flexStarterEvents := Num 0,
       flexStorageEvents := Num (- 3), forwardingGB := NaN\<rparr>"

section \<open>Facts about rounding\<close>

lemma toDouble_zero [simp]: "toDouble 0 = Num 0"
  by (simp add: toDouble_def)

lemma round_half_even_nonneg: "0 \<le> x \<Longrightarrow> 0 \<le> round_half_even x"
proof -
  assume "0 \<le> x"
  then have "0 \<le> \<lfloor>x\<rfloor>" by simp
  then show ?thesis
    by (simp add: round_half_even_def Let_def)
qed

lemma round_magnitude_cases:
  assumes "0 < a"
  shows "round_magnitude a = PosInf \<or> (\<exists>r\<ge>0. round_magnitude a = Num r)"
proof -
  define e where "e = max (floor_log2 a - 52) (- 1074)"
  define m where "m = round_half_even (a / 2 powi e)"
  have "0 \<le> a / 2 powi e"
    using assms by simp
  then have "0 \<le> m"
    unfolding m_def by (rule round_half_even_nonneg)
  then have "(0::rat) \<le> of_int m * 2 powi e"
    by simp
  then show ?thesis
    unfolding round_magnitude_def Let_def e_def [symmetric] m_def [symmetric]
    by auto
qed

lemma toDouble_nonneg:
  assumes "0 \<le> x"
  shows "toDouble x = PosInf \<or> (\<exists>r\<ge>0. toDouble x = Num r)"
proof (cases "x = 0")
  case True
  then show ?thesis by simp
next
  case False
  with assms have "0 < x" by simp
  then show ?thesis
    using round_magnitude_cases [of x] by (simp add: toDouble_def)
qed

lemma toDouble_not_NaN: "toDouble x \<noteq> NaN"
proof -
  consider "x = 0" | "0 < x" | "x < 0" by linarith
  then show ?thesis
  proof cases
    case 1
    then show ?thesis by simp
  next
    case 2
    then show ?thesis
      using round_magnitude_cases [of x] by (auto simp: toDouble_def)
  next
    case 3
    then have "0 < - x" by simp
    then show ?thesis
      using 3 round_magnitude_cases [of "- x"] by (auto simp: toDouble_def)
  qed
qed

lemma floor_log2_upper:
  assumes "0 < a"
  shows "a < 2 powi (floor_log2 a + 1)"
proof -
  obtain p q where pq: "quotient_of a = (p, q)"
    by (cases "quotient_of a")
  have q: "0 < q" using pq by (rule quotient_of_denom_pos)
  have a: "a = of_int p / of_int q" using pq by (rule quotient_of_div)
  with assms q have p: "0 < p"
    by (simp add: zero_less_divide_iff)
  define k where "k = bitlen p - bitlen q"
  have bp: "1 \<le> bitlen p" and bq: "1 \<le> bitlen q"
    using p q by (simp_all add: bitlen_alt_def)
  have "p < 2 ^ nat (bitlen p)"
    using bitlen_bounds [OF p] by simp
  then have "(of_int p :: rat) < of_int (2 ^ nat (bitlen p))"
    by (simp only: of_int_less_iff)
  then have pu: "(of_int p :: rat) < 2 powi (bitlen p)"
    using bp by (simp add: power_int_def)
  have "2 ^ nat (bitlen q - 1) \<le> q"
    using bitlen_bounds [OF q] by simp
  then have "(of_int (2 ^ nat (bitlen q - 1)) :: rat) \<le> of_int q"
    by (simp only: of_int_le_iff)
  then have ql: "(2::rat) powi (bitlen q - 1) \<le> of_int q"
    using bq by (simp add: power_int_def)
  have qpos: "(0::rat) < of_int q" using q by simp
  have "a < 2 powi (bitlen p) / of_int q"
    unfolding a using pu qpos by (simp add: divide_strict_right_mono)
  also have "\<dots> \<le> 2 powi (bitlen p) / 2 powi (bitlen q - 1)"
    using ql qpos by (intro divide_left_mono mult_pos_pos) simp_all
  also have "\<dots> = 2 powi (bitlen p - (bitlen q - 1))"
    by (rule power_int_diff [symmetric]) simp
  also have "bitlen p - (bitlen q - 1) = k + 1"
    by (simp add: k_def)
  finally have upper: "a < 2 powi (k + 1)" .
  have fl: "floor_log2 a = (if 2 powi k \<le> a then k else k - 1)"
    by (simp add: floor_log2_def pq k_def Let_def)
  show ?thesis
  proof (cases "2 powi k \<le> a")
    case True
    with fl upper show ?thesis by simp
  next
    case False
    with fl show ?thesis by simp
  qed
qed

lemma round_magnitude_overflow:
  assumes "2 ^ 1024 \<le> a"
  shows "round_magnitude a = PosInf"
proof -
  have "(0::rat) < 2 ^ 1024" by simp
  with assms have pos: "0 < a" by linarith
  have "(2::rat) powi 1024 \<le> a"
    using assms by simp
  also have "a < 2 powi (floor_log2 a + 1)"
    using pos by (rule floor_log2_upper)
  finally have lt: "(2::rat) powi 1024 < 2 powi (floor_log2 a + 1)" .
  have "1024 < floor_log2 a + 1"
  proof (rule ccontr)
    assume "\<not> 1024 < floor_log2 a + 1"
    then have "floor_log2 a + 1 \<le> 1024" by simp
    then have "(2::rat) powi (floor_log2 a + 1) \<le> 2 powi 1024"
      by (intro power_int_increasing) simp_all
    with lt show False by simp
  qed
  define e where "e = max (floor_log2 a - 52) (- 1074)"
  from \<open>1024 < floor_log2 a + 1\<close> have "971 < e"
    by (simp add: e_def)
  then show ?thesis
    unfolding round_magnitude_def Let_def e_def [symmetric] by simp
qed

lemma toDouble_overflow: "2 ^ 1024 \<le> x \<Longrightarrow> toDouble x = PosInf"
proof -
  assume big: "2 ^ 1024 \<le> x"
  have "(0::rat) < 2 ^ 1024" by simp
  with big have "0 < x" by linarith
  with big show ?thesis
    by (simp add: toDouble_def round_magnitude_overflow)
qed

section \<open>Facts about the string operations\<close>

lemma str_includes_iff: "str_includes s t \<longleftrightarrow> (\<exists>pre post. s = pre @ t @ post)"
  by (simp add: str_includes_def sublist_def)

lemma str_includes_char: "str_includes s [c] \<longleftrightarrow> c \<in> set s"
proof
  assume "str_includes s [c]"
  then obtain pre post where "s = pre @ [c] @ post"
    unfolding str_includes_iff by blast
  then show "c \<in> set s" by simp
next
  assume "c \<in> set s"
  then obtain pre post where "s = pre @ c # post"
    by (meson split_list)
  then have "s = pre @ [c] @ post" by simp
  then show "str_includes s [c]"
    unfolding str_includes_iff by blast
qed

text \<open>The unfoldings that evaluate the parsers on a given text.\<close>

lemmas parse_eval =
  parsePrice_def utils_parsePrice_def parsePercentage_def matchPriceRun_def cleaned_def
  str_includes_def isPriceChar_def parseFloat_def isDigit_def decimalValue_def
  digitsValue_def digitValue_def js_or_def sublist_code

section \<open>The percentage parser\<close>

text \<open>
  Claim C9. \<open>parsePercentage\<close> gives a percentage only for a text that holds a \<open>%\<close>
  marker: any result other than 0 comes from a text with the marker, a text without it
  gives 0 whatever digits it holds, and so does an absent text;
  \<open>parsePercentage("15%") = 15\<close> and \<open>parsePercentage("15") = 0\<close>.
\<close>

theorem parsePercentage_needs_marker:
  "(parsePercentage t \<noteq> Num 0 \<longrightarrow> (\<exists>s. t = Some s \<and> CHR ''%'' \<in> set s))
   \<and> (CHR ''%'' \<notin> set s \<longrightarrow> parsePercentage (Some s) = Num 0)
   \<and> parsePercentage None = Num 0
   \<and> parsePercentage (Some ''15%'') = Num 15
   \<and> parsePercentage (Some ''15'') = Num 0"
proof -
  have absent: "parsePercentage None = Num 0"
    by (simp add: parsePercentage_def)
  have unmarked: "parsePercentage (Some u) = Num 0" if "CHR ''%'' \<notin> set u" for u
    using that by (simp add: parsePercentage_def str_includes_char)
  have marked: "\<exists>u. t = Some u \<and> CHR ''%'' \<in> set u" if "parsePercentage t \<noteq> Num 0"
  proof (cases t)
    case None
    with that absent show ?thesis by simp
  next
    case (Some u)
    with that unmarked [of u] show ?thesis by auto
  qed
  have fifteen: "parsePercentage (Some ''15%'') = Num 15"
    by code_simp
  show ?thesis
    using absent unmarked [of s] unmarked [of "''15''"] marked fifteen by simp
qed

theorem parsePercentage_needs_marker_witness:
  "parsePercentage (Some ''save 20% today'') = Num 20
   \<and> CHR ''%'' \<in> set ''save 20% today''
   \<and> CHR ''%'' \<notin> set ''20 off''
   \<and> parsePercentage (Some ''20 off'') = Num 0"
proof -
  have v: "parsePercentage (Some ''save 20% today'') = Num 20"
    by code_simp
  have m: "CHR ''%'' \<notin> set ''20 off''" by simp
  show ?thesis
    using v m parsePercentage_needs_marker [of "Some ''save 20% today''" "''20 off''"]
    by simp
qed

section \<open>The price parsers\<close>

lemma parseFloat_not_negative: "\<not> js_negative (parseFloat s)"
proof -
  have "\<not> js_negative (toDouble (decimalValue ip fp))" for ip fp
    using toDouble_nonneg [of "decimalValue ip fp"] by (auto simp: decimalValue_def)
  then show ?thesis
    unfolding parseFloat_def Let_def by (simp split: list.splits)
qed

lemma utils_parsePrice_cleaned:
  "utils_parsePrice (Some s) = js_or (parseFloat (cleaned s)) (Num 0)"
  by (simp add: utils_parsePrice_def cleaned_def parseFloat_def isDigit_def js_or_def)

lemma utils_parsePrice_not_NaN: "utils_parsePrice t \<noteq> NaN"
proof (cases t)
  case None
  then show ?thesis by (simp add: utils_parsePrice_def)
next
  case (Some s)
  then show ?thesis
    by (simp add: utils_parsePrice_cleaned js_or_def)
qed

text \<open>The doubles nearest to the decimal numbers met below.\<close>

lemma double_values:
  "toDouble 1 = Num 1"
  "toDouble 15 = Num 15"
  "toDouble 20 = Num 20"
  "toDouble (3401 / 2) = Num (3401 / 2)"
  "toDouble (1701 / 1000) = Num (3830311483078607 / 2251799813685248)"
  "toDouble (17 / 10) = Num (7656119366529843 / 4503599627370496)"
  "toDouble (127 / 100) = Num (2859785763380265 / 2251799813685248)"
  "toDouble (1 / 10) = Num (3602879701896397 / 36028797018963968)"
  "toDouble (3 / 5) = Num (5404319552844595 / 9007199254740992)"
  "toDouble (1 / 4) = Num (1 / 4)"
  by code_simp+

text \<open>
  Claim C5. The price parser never fails and degrades to 0 on any anomaly. The utility
  parser never returns \<open>NaN\<close> (the lemma above); the calculator's own parser does: on a
  text whose first run of digits and points is a lone point, such as the full stop of
  \<open>Contact us.\<close>, the pattern matches, \<open>parseFloat\<close> finds no number, and the result is
  \<open>NaN\<close>, which the utility parser turns into 0 with \<open>|| 0\<close>.
\<close>

theorem parsePrice_lone_point:
  "parsePrice (Some ''Contact us.'') = NaN
   \<and> utils_parsePrice (Some ''Contact us.'') = Num 0"
  by (simp add: parse_eval)

text \<open>
  Claim C4. One rule is claimed for the price parser: the first maximal run of digits
  with a decimal point is read, and currency symbols, thousands separators, unit
  suffixes and surrounding words are ignored. Each of the two parsers breaks it where
  the other keeps it. On \<open>$1,700.50\<close> the calculator's parser stops at the thousands
  separator and gives 1, while the utility parser gives 1700.5; on \<open>$1.70 per 1M\<close> the
  utility parser joins the digit of the unit suffix to the price and gives 1.701, while
  the calculator's parser gives 1.7.
\<close>

theorem parsePrice_siblings_disagree:
  "parsePrice (Some ''$1,700.50'') = Num 1
   \<and> utils_parsePrice (Some ''$1,700.50'') = Num (3401 / 2)
   \<and> utils_parsePrice (Some ''$1.70 per 1M'') = toDouble (1701 / 1000)
   \<and> parsePrice (Some ''$1.70 per 1M'') = toDouble (17 / 10)
   \<and> toDouble (1701 / 1000) = Num (3830311483078607 / 2251799813685248)
   \<and> toDouble (17 / 10) = Num (7656119366529843 / 4503599627370496)"
  by (simp add: parse_eval double_values)

section \<open>The calculator on the small catalog\<close>

text \<open>The doubles met when the calculator runs on the small catalog.\<close>

lemma more_double_values:
  "toDouble 102400 = Num 102400"
  "toDouble 104857600 = Num 104857600"
  "toDouble 52428800 = Num 52428800"
  "toDouble (3 / 20) = Num (5404319552844595 / 36028797018963968)"
  "toDouble (135107988821114875 / 17179869184) = Num 7864320"
  "toDouble (24576 / 3125) = Num (8854437155380585 / 1125899906842624)"
  "toDouble (90071992547409925 / 9007199254740992) = Num 10"
  "toDouble (67790627785030709464627425298155 / 5070602400912917605986812821504) = Num (7526271582073497 / 562949953421312)"
  "toDouble (13155771116286617 / 562949953421312) = Num (1644471389535827 / 70368744177664)"
  "toDouble (4933414168607481 / 17592186044416) = Num (4933414168607481 / 17592186044416)"
  "toDouble (27021597764222975 / 4503599627370496) = Num 6"
  "toDouble 5 = Num 5"
  "toDouble 11 = Num 11"
  "toDouble (2418527575490131 / 70368744177664) = Num (2418527575490131 / 70368744177664)"
  "toDouble (7255582726470393 / 17592186044416) = Num (7255582726470393 / 17592186044416)"
  "toDouble 240000000 = Num 240000000"
  "toDouble 245760000000 = Num 245760000000"
  "toDouble 122880000000 = Num 122880000000"
  "toDouble (11 / 20) = Num (2476979795053773 / 4503599627370496)"
  "toDouble (580542139465728046875 / 8589934592) = Num (8858370048000001 / 131072)"
  "toDouble (8858370048000001 / 131072000000) = Num (4644337115725825 / 68719476736)"
  "toDouble (- 1024) = Num (- 1024)"
  "toDouble (- 1048576) = Num (- 1048576)"
  "toDouble (- (16384 / 15625)) = Num (- (4722366482869645 / 4503599627370496))"
  "toDouble (- (3602879701896397 / 36028797018963968)) = Num (- (3602879701896397 / 36028797018963968))"
  "toDouble 209715200 = Num 209715200"
  "toDouble (1 / 2) = Num (1 / 2)"
  "toDouble (65536 / 625) = Num (7378697629483821 / 70368744177664)"
  by code_simp+

lemmas catalog_eval =
  sample_catalog_def ingestionProduct_def indexedProduct_def flexStarterProduct_def
  flexStorageProduct_def forwardingProduct_def ingestionCriteria_def indexedCriteria_def
  nameCriteria_def toLowerCase_def toLowerCaseChar_def str_includes_def sublist_code

lemmas quantity_eval =
  initial_def totalLogsPerMonth_def indexedLogsCount_def indexedLogsInMillions_def

lemma sample_lookups:
  "ingestionProduct sample_catalog = Some (sample_catalog ! 1)"
  "indexedProduct sample_catalog initial = Some (sample_catalog ! 3)"
  "flexStarterProduct sample_catalog = Some (sample_catalog ! 0)"
  "flexStorageProduct sample_catalog = None"
  "forwardingProduct sample_catalog = Some (sample_catalog ! 5)"
  by (simp_all add: catalog_eval initial_def)

lemma sample_prices:
  "ingestionPrice sample_catalog = Num (3602879701896397 / 36028797018963968)"
  "indexedPrice sample_catalog initial = Num (7656119366529843 / 4503599627370496)"
  "flexStarterPrice sample_catalog = Num (5404319552844595 / 9007199254740992)"
  "flexStoragePrice sample_catalog = Num 0"
  "forwardingPrice sample_catalog = Num (1 / 4)"
  unfolding ingestionPrice_def indexedPrice_def flexStarterPrice_def flexStoragePrice_def
    forwardingPrice_def sample_lookups
  by (simp_all add: sample_catalog_def price_text_def parse_eval double_values)

lemma initial_quantities:
  "totalLogsPerMonth initial = Num 52428800"
  "indexedLogsCount initial = Num 7864320"
  "indexedLogsInMillions initial = Num (8854437155380585 / 1125899906842624)"
  by (simp_all add: quantity_eval double_values more_double_values)

lemma js_add_zero_right: "js_add x (Num 0) = x"
  by (cases x) simp_all

lemma parsePrice_absent: "parsePrice (price_text None) = Num 0"
  by (simp add: price_text_def parsePrice_def)

section \<open>The derived quantities computed\<close>

text \<open>
  Claim C3. For every input the three derived quantities are the products and quotients
  the claim gives, computed as doubles in that order, with no rounding to an integer or
  to decimal places in between. For 100 GB and 2 KB there are 52,428,800 entries; with
  15 percent indexed, 7,864,320 entries, which in millions is the double nearest to
  7.864320.
\<close>

theorem derived_quantities:
  "totalLogsPerMonth w
     = js_div (js_mul (js_mul (ingestedLogsGB w) (Num 1024)) (Num 1024)) (avgLogSizeKB w)
   \<and> indexedLogsCount w
     = js_mul (totalLogsPerMonth w) (js_div (indexingPercentage w) (Num 100))
   \<and> indexedLogsInMillions w = js_div (indexedLogsCount w) (Num 1000000)
   \<and> (ingestedLogsGB w = Num 100 \<and> avgLogSizeKB w = Num 2
      \<longrightarrow> totalLogsPerMonth w = Num 52428800)
   \<and> (ingestedLogsGB w = Num 100 \<and> avgLogSizeKB w = Num 2 \<and> indexingPercentage w = Num 15
      \<longrightarrow> indexedLogsCount w = Num 7864320
        \<and> indexedLogsInMillions w = toDouble (7864320 / 1000000))"
  by (simp add: totalLogsPerMonth_def indexedLogsCount_def indexedLogsInMillions_def
      double_values more_double_values)

theorem derived_quantities_witness:
  "totalLogsPerMonth initial = Num 52428800
   \<and> indexedLogsCount initial = Num 7864320
   \<and> indexedLogsInMillions initial = toDouble (7864320 / 1000000)
   \<and> toDouble (7864320 / 1000000) = Num (8854437155380585 / 1125899906842624)
   \<and> totalLogsPerMonth (initial\<lparr>ingestedLogsGB := Num 234375, indexingPercentage := Num 55\<rparr>)
       = Num 122880000000
   \<and> indexedLogsInMillions
         (initial\<lparr>ingestedLogsGB := Num 234375, indexingPercentage := Num 55\<rparr>)
       = Num (4644337115725825 / 68719476736)
   \<and> Math_ceil (Num (4644337115725825 / 68719476736)) = Num 67585"
proof -
  have i: "ingestedLogsGB initial = Num 100" "avgLogSizeKB initial = Num 2"
    "indexingPercentage initial = Num 15"
    by (simp_all add: initial_def)
  let ?w = "initial\<lparr>ingestedLogsGB := Num 234375, indexingPercentage := Num 55\<rparr>"
  have j: "ingestedLogsGB ?w = Num 234375" "avgLogSizeKB ?w = Num 2"
    "indexingPercentage ?w = Num 55"
    by (simp_all add: initial_def)
  have first: "totalLogsPerMonth initial = Num 52428800"
    "indexedLogsCount initial = Num 7864320"
    "indexedLogsInMillions initial = toDouble (7864320 / 1000000)"
    using derived_quantities [of initial] i by blast+
  have nearest: "toDouble (7864320 / 1000000) = Num (8854437155380585 / 1125899906842624)"
    by (simp add: more_double_values)
  note second = derived_quantities [of ?w]
  have t: "totalLogsPerMonth ?w = Num 122880000000"
    using second by (simp add: j more_double_values)
  have c: "indexedLogsCount ?w = Num (8858370048000001 / 131072)"
    using second by (simp add: j t more_double_values)
  have m: "indexedLogsInMillions ?w = Num (4644337115725825 / 68719476736)"
    using second by (simp add: c more_double_values)
  have up: "Math_ceil (Num (4644337115725825 / 68719476736)) = Num 67585"
    by (simp add: ceiling_eq_iff)
  show ?thesis
    by (intro conjI first nearest t m up)
qed

section \<open>Cost aggregation\<close>

text \<open>
  Claim C2. Each category cost is quantity times unit price (for an add-on, when it is
  switched on); the unit price of a category whose product did not match is 0; an
  add-on that is switched off costs exactly 0 and the monthly total does not depend on
  its usage count; the monthly total is the sum of the five category costs; the yearly
  figure is the monthly total times 12.
\<close>

theorem cost_aggregation:
  "ingestionCost products w = js_mul (ingestedLogsGB w) (ingestionPrice products)
   \<and> indexedCost products w = js_mul (indexedLogsInMillions w) (indexedPrice products w)
   \<and> (enableFlexStarter w
      \<longrightarrow> flexStarterCost products w
          = js_mul (flexStarterEvents w) (flexStarterPrice products))
   \<and> (enableFlexStorage w
      \<longrightarrow> flexStorageCost products w
          = js_mul (flexStorageEvents w) (flexStoragePrice products))
   \<and> (enableForwarding w
      \<longrightarrow> forwardingCost products w = js_mul (forwardingGB w) (forwardingPrice products))
   \<and> (ingestionProduct products = None \<longrightarrow> ingestionPrice products = Num 0)
   \<and> (indexedProduct products w = None \<longrightarrow> indexedPrice products w = Num 0)
   \<and> (flexStarterProduct products = None \<longrightarrow> flexStarterPrice products = Num 0)
   \<and> (flexStorageProduct products = None \<longrightarrow> flexStoragePrice products = Num 0)
   \<and> (forwardingProduct products = None \<longrightarrow> forwardingPrice products = Num 0)
   \<and> (\<not> enableFlexStarter w
      \<longrightarrow> flexStarterCost products w = Num 0
        \<and> totalMonthlyCost products (w\<lparr>flexStarterEvents := n\<rparr>)
          = totalMonthlyCost products w)
   \<and> (\<not> enableFlexStorage w
      \<longrightarrow> flexStorageCost products w = Num 0
        \<and> totalMonthlyCost products (w\<lparr>flexStorageEvents := n\<rparr>)
          = totalMonthlyCost products w)
   \<and> (\<not> enableForwarding w
      \<longrightarrow> forwardingCost products w = Num 0
        \<and> totalMonthlyCost products (w\<lparr>forwardingGB := n\<rparr>) = totalMonthlyCost products w)
   \<and> (\<not> enableFlexStarter w \<and> \<not> enableFlexStorage w \<and> \<not> enableForwarding w
      \<longrightarrow> totalMonthlyCost products w
          = js_add (ingestionCost products w) (indexedCost products w))
   \<and> totalMonthlyCost products w
       = js_add (js_add (ingestionCost products w) (indexedCost products w))
           (js_add (js_add (flexStarterCost products w) (flexStorageCost products w))
              (forwardingCost products w))
   \<and> yearlyCost products w = js_mul (totalMonthlyCost products w) (Num 12)"
proof -
  have unmatched:
    "ingestionProduct products = None \<longrightarrow> ingestionPrice products = Num 0"
    "indexedProduct products w = None \<longrightarrow> indexedPrice products w = Num 0"
    "flexStarterProduct products = None \<longrightarrow> flexStarterPrice products = Num 0"
    "flexStorageProduct products = None \<longrightarrow> flexStoragePrice products = Num 0"
    "forwardingProduct products = None \<longrightarrow> forwardingPrice products = Num 0"
    by (simp_all add: ingestionPrice_def indexedPrice_def flexStarterPrice_def
        flexStoragePrice_def forwardingPrice_def parsePrice_absent)
  have same: "indexedLogsInMillions (w\<lparr>flexStarterEvents := n\<rparr>) = indexedLogsInMillions w"
    "indexedLogsInMillions (w\<lparr>flexStorageEvents := n\<rparr>) = indexedLogsInMillions w"
    "indexedLogsInMillions (w\<lparr>forwardingGB := n\<rparr>) = indexedLogsInMillions w"
    "indexedPrice products (w\<lparr>flexStarterEvents := n\<rparr>) = indexedPrice products w"
    "indexedPrice products (w\<lparr>flexStorageEvents := n\<rparr>) = indexedPrice products w"
    "indexedPrice products (w\<lparr>forwardingGB := n\<rparr>) = indexedPrice products w"
    by (simp_all add: quantity_eval indexedPrice_def indexedProduct_def)
  have enabled:
    "enableFlexStarter w \<longrightarrow> flexStarterCost products w
       = js_mul (flexStarterEvents w) (flexStarterPrice products)"
    "enableFlexStorage w \<longrightarrow> flexStorageCost products w
       = js_mul (flexStorageEvents w) (flexStoragePrice products)"
    "enableForwarding w \<longrightarrow> forwardingCost products w
       = js_mul (forwardingGB w) (forwardingPrice products)"
    by (simp_all add: flexStarterCost_def flexStorageCost_def forwardingCost_def)
  have disabled:
    "\<not> enableFlexStarter w \<longrightarrow> flexStarterCost products w = Num 0
        \<and> totalMonthlyCost products (w\<lparr>flexStarterEvents := n\<rparr>)
          = totalMonthlyCost products w"
    "\<not> enableFlexStorage w \<longrightarrow> flexStorageCost products w = Num 0
        \<and> totalMonthlyCost products (w\<lparr>flexStorageEvents := n\<rparr>)
          = totalMonthlyCost products w"
    "\<not> enableForwarding w \<longrightarrow> forwardingCost products w = Num 0
        \<and> totalMonthlyCost products (w\<lparr>forwardingGB := n\<rparr>) = totalMonthlyCost products w"
    by (simp_all add: totalMonthlyCost_def additionalCost_def ingestionCost_def
        indexedCost_def flexStarterCost_def flexStorageCost_def forwardingCost_def same)
  have none: "\<not> enableFlexStarter w \<and> \<not> enableFlexStorage w \<and> \<not> enableForwarding w
      \<longrightarrow> totalMonthlyCost products w
          = js_add (ingestionCost products w) (indexedCost products w)"
    by (simp add: totalMonthlyCost_def additionalCost_def flexStarterCost_def
        flexStorageCost_def forwardingCost_def js_add_zero_right)
  have total: "totalMonthlyCost products w
       = js_add (js_add (ingestionCost products w) (indexedCost products w))
           (js_add (js_add (flexStarterCost products w) (flexStorageCost products w))
              (forwardingCost products w))"
    "yearlyCost products w = js_mul (totalMonthlyCost products w) (Num 12)"
    by (simp_all add: totalMonthlyCost_def additionalCost_def yearlyCost_def)
  have direct: "ingestionCost products w = js_mul (ingestedLogsGB w) (ingestionPrice products)"
    "indexedCost products w = js_mul (indexedLogsInMillions w) (indexedPrice products w)"
    by (simp_all add: ingestionCost_def indexedCost_def)
  show ?thesis
    by (intro conjI direct enabled unmatched disabled none total)
qed

lemma all_enabled_fields:
  "ingestedLogsGB all_enabled = Num 100"
  "indexedLogsInMillions all_enabled = indexedLogsInMillions initial"
  "indexedPrice sample_catalog all_enabled = indexedPrice sample_catalog initial"
  "indexedProduct sample_catalog all_enabled = indexedProduct sample_catalog initial"
  "enableFlexStarter all_enabled" "enableFlexStorage all_enabled" "enableForwarding all_enabled"
  "flexStarterEvents all_enabled = Num 10" "flexStorageEvents all_enabled = Num 50"
  "forwardingGB all_enabled = Num 20"
  by (simp_all add: all_enabled_def quantity_eval indexedPrice_def indexedProduct_def)

lemma initial_fields:
  "ingestedLogsGB initial = Num 100"
  "\<not> enableFlexStarter initial" "\<not> enableFlexStorage initial" "\<not> enableForwarding initial"
  "flexStarterEvents initial = Num 10" "flexStorageEvents initial = Num 50"
  "forwardingGB initial = Num 20"
  by (simp_all add: initial_def)

theorem cost_aggregation_witness:
  "ingestionCost sample_catalog initial = Num 10
   \<and> indexedCost sample_catalog initial = Num (7526271582073497 / 562949953421312)
   \<and> flexStarterCost sample_catalog initial = Num 0
   \<and> totalMonthlyCost sample_catalog (initial\<lparr>flexStarterEvents := Num 999\<rparr>)
       = totalMonthlyCost sample_catalog initial
   \<and> totalMonthlyCost sample_catalog initial = Num (1644471389535827 / 70368744177664)
   \<and> yearlyCost sample_catalog initial = Num (4933414168607481 / 17592186044416)
   \<and> flexStoragePrice sample_catalog = Num 0
   \<and> flexStarterCost sample_catalog all_enabled = Num 6
   \<and> flexStorageCost sample_catalog all_enabled = Num 0
   \<and> forwardingCost sample_catalog all_enabled = Num 5
   \<and> totalMonthlyCost sample_catalog all_enabled = Num (2418527575490131 / 70368744177664)
   \<and> ingestionPrice [] = Num 0
   \<and> totalMonthlyCost [] all_enabled = Num 0"
proof -
  note off = cost_aggregation [of sample_catalog initial "Num 999"]
  note on = cost_aggregation [of sample_catalog all_enabled "Num 0"]
  note empty = cost_aggregation [of "[]" all_enabled "Num 0"]
  have a: "ingestionCost sample_catalog initial = Num 10"
    "indexedCost sample_catalog initial = Num (7526271582073497 / 562949953421312)"
    using off by (simp_all add: initial_fields sample_prices initial_quantities more_double_values)
  have b: "flexStarterCost sample_catalog initial = Num 0"
    "totalMonthlyCost sample_catalog (initial\<lparr>flexStarterEvents := Num 999\<rparr>)
       = totalMonthlyCost sample_catalog initial"
    using off initial_fields by blast+
  have "totalMonthlyCost sample_catalog initial
        = js_add (ingestionCost sample_catalog initial) (indexedCost sample_catalog initial)"
    using off initial_fields by blast
  then have c: "totalMonthlyCost sample_catalog initial = Num (1644471389535827 / 70368744177664)"
    by (simp add: a more_double_values)
  have "yearlyCost sample_catalog initial
        = js_mul (totalMonthlyCost sample_catalog initial) (Num 12)"
    using off by blast
  then have d: "yearlyCost sample_catalog initial = Num (4933414168607481 / 17592186044416)"
    by (simp add: c more_double_values)
  have e: "flexStoragePrice sample_catalog = Num 0"
    using off sample_lookups(4) by blast
  have f: "flexStarterCost sample_catalog all_enabled = Num 6"
    "flexStorageCost sample_catalog all_enabled = Num 0"
    "forwardingCost sample_catalog all_enabled = Num 5"
    "ingestionCost sample_catalog all_enabled = Num 10"
    "indexedCost sample_catalog all_enabled = Num (7526271582073497 / 562949953421312)"
    using on by (simp_all add: all_enabled_fields sample_prices initial_quantities more_double_values)
  have "totalMonthlyCost sample_catalog all_enabled
       = js_add (js_add (ingestionCost sample_catalog all_enabled)
                   (indexedCost sample_catalog all_enabled))
           (js_add (js_add (flexStarterCost sample_catalog all_enabled)
                      (flexStorageCost sample_catalog all_enabled))
              (forwardingCost sample_catalog all_enabled))"
    using on by blast
  then have g: "totalMonthlyCost sample_catalog all_enabled = Num (2418527575490131 / 70368744177664)"
    by (simp add: f more_double_values)
  have lookups: "ingestionProduct [] = None" "indexedProduct [] all_enabled = None"
    "flexStarterProduct [] = None" "flexStorageProduct [] = None" "forwardingProduct [] = None"
    by (simp_all add: ingestionProduct_def indexedProduct_def flexStarterProduct_def
        flexStorageProduct_def forwardingProduct_def)
  have h: "ingestionPrice [] = Num 0" "indexedPrice [] all_enabled = Num 0"
    "flexStarterPrice [] = Num 0" "flexStoragePrice [] = Num 0" "forwardingPrice [] = Num 0"
    using empty lookups by blast+
  have k: "ingestionCost [] all_enabled = Num 0" "indexedCost [] all_enabled = Num 0"
    "flexStarterCost [] all_enabled = Num 0" "flexStorageCost [] all_enabled = Num 0"
    "forwardingCost [] all_enabled = Num 0"
    using empty by (simp_all add: h all_enabled_fields initial_quantities)
  have "totalMonthlyCost [] all_enabled
       = js_add (js_add (ingestionCost [] all_enabled) (indexedCost [] all_enabled))
           (js_add (js_add (flexStarterCost [] all_enabled) (flexStorageCost [] all_enabled))
              (forwardingCost [] all_enabled))"
    using empty by blast
  then have l: "totalMonthlyCost [] all_enabled = Num 0"
    by (simp add: k)
  show ?thesis
    by (intro conjI a b c d e f(1,2,3) g h(1) l)
qed

section \<open>The items handed to the quote\<close>

lemma addToQuote_items_entries:
  "addToQuote_items products w =
     quote_entry (ingestionProduct products) True (ingestedLogsGB w)
     @ quote_entry (indexedProduct products w) True (indexedLogsInMillions w)
     @ quote_entry (flexStarterProduct products) (enableFlexStarter w) (flexStarterEvents w)
     @ quote_entry (flexStorageProduct products) (enableFlexStorage w) (flexStorageEvents w)
     @ quote_entry (forwardingProduct products) (enableForwarding w) (forwardingGB w)"
  unfolding addToQuote_items_def quote_entry_def Let_def
  by (simp split: option.splits)

lemma quote_entry_nonempty:
  "quote_entry m enabled q \<noteq> [] \<longleftrightarrow> m \<noteq> None \<and> enabled \<and> js_positive q"
  by (simp add: quote_entry_def split: option.splits)

lemma quote_entry_empty: "\<not> enabled \<or> m = None \<or> \<not> js_positive q \<Longrightarrow> quote_entry m enabled q = []"
  by (auto simp: quote_entry_def split: option.splits)

lemma quote_entry_member:
  assumes "it \<in> set (quote_entry m enabled q)"
  shows "m = Some (item_product it) \<and> enabled \<and> js_positive q \<and> quantity it = Math_ceil q"
  using assms by (auto simp: quote_entry_def split: option.splits if_splits)

lemma find_member: "find P xs = Some x \<Longrightarrow> x \<in> set xs \<and> P x"
  by (auto simp: find_Some_iff)

lemma lookups_in_catalog:
  "ingestionProduct products = Some p \<Longrightarrow> p \<in> set products"
  "indexedProduct products w = Some p \<Longrightarrow> p \<in> set products"
  "flexStarterProduct products = Some p \<Longrightarrow> p \<in> set products"
  "flexStorageProduct products = Some p \<Longrightarrow> p \<in> set products"
  "forwardingProduct products = Some p \<Longrightarrow> p \<in> set products"
  unfolding ingestionProduct_def indexedProduct_def flexStarterProduct_def
    flexStorageProduct_def forwardingProduct_def
  by (simp_all add: find_member)

lemma Math_ceil_positive: "js_positive q \<Longrightarrow> js_positive (Math_ceil q)"
proof (cases q)
  case (Num a)
  assume "js_positive q"
  with Num have "0 < a" by simp
  then have "0 < \<lceil>a\<rceil>" by simp
  with Num show ?thesis by simp
qed simp_all

lemma Math_ceil_whole:
  assumes "js_positive q" and "Math_ceil q = Num r"
  shows "1 \<le> r \<and> r \<in> \<int>"
proof (cases q)
  case (Num a)
  with assms have a: "0 < a" and r: "r = of_int \<lceil>a\<rceil>" by simp_all
  from a have "1 \<le> \<lceil>a\<rceil>" by simp
  then have "(1::rat) \<le> of_int \<lceil>a\<rceil>" by linarith
  with r show ?thesis by simp
qed (use assms in simp_all)

lemma addToQuote_items_member:
  assumes "it \<in> set (addToQuote_items products w)"
  shows "item_product it \<in> set products \<and> js_positive (quantity it)
         \<and> (\<forall>r. quantity it = Num r \<longrightarrow> 1 \<le> r \<and> r \<in> \<int>)"
proof -
  from assms obtain m enabled q where
    src: "m \<in> {ingestionProduct products, indexedProduct products w,
                 flexStarterProduct products, flexStorageProduct products,
                 forwardingProduct products}"
    and mem: "it \<in> set (quote_entry m enabled q)"
    unfolding addToQuote_items_entries by auto
  from quote_entry_member [OF mem] have
    m: "m = Some (item_product it)" and pos: "js_positive q"
    and qty: "quantity it = Math_ceil q"
    by simp_all
  from src m have "item_product it \<in> set products"
    using lookups_in_catalog by blast
  moreover have "js_positive (quantity it)"
    using pos qty Math_ceil_positive by simp
  moreover have "\<forall>r. quantity it = Num r \<longrightarrow> 1 \<le> r \<and> r \<in> \<int>"
    using pos qty Math_ceil_whole by simp
  ultimately show ?thesis by simp
qed

lemma ceil_of_indexed: "Math_ceil (Num (8854437155380585 / 1125899906842624)) = Num 8"
  by (simp add: ceiling_eq_iff)

lemma sample_lookups_enabled:
  "indexedProduct sample_catalog all_enabled = Some (sample_catalog ! 3)"
  "indexedLogsInMillions all_enabled = Num (8854437155380585 / 1125899906842624)"
  using sample_lookups(2) initial_quantities(3) by (simp_all add: all_enabled_fields)

text \<open>
  Claim C1. The items \<open>addToQuote\<close> builds are, in this order, the entry for ingestion,
  the entry for indexed events and the entries of the three add-ons in their fixed
  order, where a category has an entry exactly when its product matched, it is switched
  on (the two mandatory categories always are) and its continuous quantity is strictly
  positive, and the entry's quantity is the ceiling of that quantity. A category that is
  switched off has no entry. Every item built holds a product of the catalog and a
  quantity that is strictly positive, and a whole number of at least 1 when finite.
\<close>

theorem addToQuote_items_rule:
  "addToQuote_items products w =
     quote_entry (ingestionProduct products) True (ingestedLogsGB w)
     @ quote_entry (indexedProduct products w) True (indexedLogsInMillions w)
     @ quote_entry (flexStarterProduct products) (enableFlexStarter w) (flexStarterEvents w)
     @ quote_entry (flexStorageProduct products) (enableFlexStorage w) (flexStorageEvents w)
     @ quote_entry (forwardingProduct products) (enableForwarding w) (forwardingGB w)
   \<and> (quote_entry m enabled q \<noteq> [] \<longleftrightarrow> m \<noteq> None \<and> enabled \<and> js_positive q)
   \<and> quote_entry m False q = []
   \<and> (\<forall>it \<in> set (addToQuote_items products w).
        item_product it \<in> set products \<and> js_positive (quantity it)
        \<and> (\<forall>r. quantity it = Num r \<longrightarrow> 1 \<le> r \<and> r \<in> \<int>))"
proof -
  have off: "quote_entry m False q = []"
    by (simp add: quote_entry_empty)
  have each: "\<forall>it \<in> set (addToQuote_items products w).
        item_product it \<in> set products \<and> js_positive (quantity it)
        \<and> (\<forall>r. quantity it = Num r \<longrightarrow> 1 \<le> r \<and> r \<in> \<int>)"
    using addToQuote_items_member by blast
  show ?thesis
    by (intro conjI addToQuote_items_entries quote_entry_nonempty off each)
qed

theorem addToQuote_items_rule_witness:
  "addToQuote_items sample_catalog all_enabled =
     [\<lparr>item_product = sample_catalog ! 1, quantity = Num 100\<rparr>,
      \<lparr>item_product = sample_catalog ! 3, quantity = Num 8\<rparr>,
      \<lparr>item_product = sample_catalog ! 0, quantity = Num 10\<rparr>,
      \<lparr>item_product = sample_catalog ! 5, quantity = Num 20\<rparr>]
   \<and> quote_entry (flexStarterProduct sample_catalog) False (Num 10) = []
   \<and> sample_catalog ! 3 \<in> set sample_catalog
   \<and> js_positive (Num 8)
   \<and> (1::rat) \<le> 8"
proof -
  note rule = addToQuote_items_rule
    [of sample_catalog all_enabled "flexStarterProduct sample_catalog" False "Num 10"]
  have "addToQuote_items sample_catalog all_enabled =
     quote_entry (ingestionProduct sample_catalog) True (ingestedLogsGB all_enabled)
     @ quote_entry (indexedProduct sample_catalog all_enabled) True
         (indexedLogsInMillions all_enabled)
     @ quote_entry (flexStarterProduct sample_catalog) (enableFlexStarter all_enabled)
         (flexStarterEvents all_enabled)
     @ quote_entry (flexStorageProduct sample_catalog) (enableFlexStorage all_enabled)
         (flexStorageEvents all_enabled)
     @ quote_entry (forwardingProduct sample_catalog) (enableForwarding all_enabled)
         (forwardingGB all_enabled)"
    using rule by blast
  then have items: "addToQuote_items sample_catalog all_enabled =
     [\<lparr>item_product = sample_catalog ! 1, quantity = Num 100\<rparr>,
      \<lparr>item_product = sample_catalog ! 3, quantity = Num 8\<rparr>,
      \<lparr>item_product = sample_catalog ! 0, quantity = Num 10\<rparr>,
      \<lparr>item_product = sample_catalog ! 5, quantity = Num 20\<rparr>]"
    by (simp add: sample_lookups sample_lookups_enabled all_enabled_fields quote_entry_def
        ceiling_eq_iff)
  have off: "quote_entry (flexStarterProduct sample_catalog) False (Num 10) = []"
    using rule by blast
  let ?it = "\<lparr>item_product = sample_catalog ! 3, quantity = Num 8\<rparr>"
  have "?it \<in> set (addToQuote_items sample_catalog all_enabled)"
    unfolding items by simp
  moreover have "\<forall>it \<in> set (addToQuote_items sample_catalog all_enabled).
        item_product it \<in> set sample_catalog \<and> js_positive (quantity it)
        \<and> (\<forall>r. quantity it = Num r \<longrightarrow> 1 \<le> r \<and> r \<in> \<int>)"
    using rule by blast
  ultimately have "item_product ?it \<in> set sample_catalog \<and> js_positive (quantity ?it)
        \<and> (\<forall>r. quantity ?it = Num r \<longrightarrow> 1 \<le> r \<and> r \<in> \<int>)"
    by blast
  then have each: "sample_catalog ! 3 \<in> set sample_catalog" "js_positive (Num 8)"
    "(1::rat) \<le> 8"
    by simp_all
  show ?thesis
    by (intro conjI items off each)
qed

text \<open>
  Claim C10. \<open>addToQuote\<close> calls \<open>onAddToQuote\<close> at most once, and only with the items
  it built, which are then not empty: it calls it once with the items when there is an
  item and not at all when there is none, as when no product matched or no quantity is
  strictly positive.
\<close>

theorem addToQuote_calls:
  "length (addToQuote products w) \<le> 1
   \<and> (\<forall>items \<in> set (addToQuote products w).
        items \<noteq> [] \<and> items = addToQuote_items products w)
   \<and> (addToQuote_items products w \<noteq> []
      \<longrightarrow> addToQuote products w = [addToQuote_items products w])
   \<and> (addToQuote_items products w = [] \<longrightarrow> addToQuote products w = [])
   \<and> (ingestionProduct products = None \<and> indexedProduct products w = None
        \<and> flexStarterProduct products = None \<and> flexStorageProduct products = None
        \<and> forwardingProduct products = None
      \<longrightarrow> addToQuote products w = [])
   \<and> (\<not> js_positive (ingestedLogsGB w) \<and> \<not> js_positive (indexedLogsInMillions w)
        \<and> \<not> js_positive (flexStarterEvents w) \<and> \<not> js_positive (flexStorageEvents w)
        \<and> \<not> js_positive (forwardingGB w)
      \<longrightarrow> addToQuote products w = [])"
proof -
  have once: "length (addToQuote products w) \<le> 1"
    by (simp add: addToQuote_def Let_def)
  have arg: "\<forall>items \<in> set (addToQuote products w).
      items \<noteq> [] \<and> items = addToQuote_items products w"
    by (simp add: addToQuote_def Let_def)
  have some: "addToQuote_items products w \<noteq> []
      \<longrightarrow> addToQuote products w = [addToQuote_items products w]"
    by (simp add: addToQuote_def Let_def)
  have none: "addToQuote_items products w = [] \<longrightarrow> addToQuote products w = []"
    by (simp add: addToQuote_def Let_def)
  have unmatched: "ingestionProduct products = None \<and> indexedProduct products w = None
        \<and> flexStarterProduct products = None \<and> flexStorageProduct products = None
        \<and> forwardingProduct products = None
      \<longrightarrow> addToQuote products w = []"
    using none by (simp add: addToQuote_items_entries quote_entry_empty)
  have nonpositive: "\<not> js_positive (ingestedLogsGB w) \<and> \<not> js_positive (indexedLogsInMillions w)
        \<and> \<not> js_positive (flexStarterEvents w) \<and> \<not> js_positive (flexStorageEvents w)
        \<and> \<not> js_positive (forwardingGB w)
      \<longrightarrow> addToQuote products w = []"
    using none by (simp add: addToQuote_items_entries quote_entry_empty)
  show ?thesis
    by (intro conjI once arg some none unmatched nonpositive)
qed

theorem addToQuote_calls_witness:
  "addToQuote sample_catalog initial =
     [[\<lparr>item_product = sample_catalog ! 1, quantity = Num 100\<rparr>,
       \<lparr>item_product = sample_catalog ! 3, quantity = Num 8\<rparr>]]
   \<and> addToQuote [] initial = []
   \<and> addToQuote sample_catalog nothing_to_bill = []"
proof -
  have items: "addToQuote_items sample_catalog initial =
     [\<lparr>item_product = sample_catalog ! 1, quantity = Num 100\<rparr>,
      \<lparr>item_product = sample_catalog ! 3, quantity = Num 8\<rparr>]"
    by (simp add: addToQuote_items_entries sample_lookups initial_quantities quote_entry_def
        initial_fields ceiling_eq_iff)
  then have "addToQuote_items sample_catalog initial \<noteq> []"
    by simp
  then have "addToQuote sample_catalog initial = [addToQuote_items sample_catalog initial]"
    using addToQuote_calls [of sample_catalog initial] by blast
  then have a: "addToQuote sample_catalog initial =
     [[\<lparr>item_product = sample_catalog ! 1, quantity = Num 100\<rparr>,
       \<lparr>item_product = sample_catalog ! 3, quantity = Num 8\<rparr>]]"
    unfolding items .
  have "ingestionProduct [] = None \<and> indexedProduct [] initial = None
        \<and> flexStarterProduct [] = None \<and> flexStorageProduct [] = None
        \<and> forwardingProduct [] = None"
    by (simp add: ingestionProduct_def indexedProduct_def flexStarterProduct_def
        flexStorageProduct_def forwardingProduct_def)
  then have b: "addToQuote [] initial = []"
    using addToQuote_calls [of "[]" initial] by blast
  have "\<not> js_positive (ingestedLogsGB nothing_to_bill)
        \<and> \<not> js_positive (indexedLogsInMillions nothing_to_bill)
        \<and> \<not> js_positive (flexStarterEvents nothing_to_bill)
        \<and> \<not> js_positive (flexStorageEvents nothing_to_bill)
        \<and> \<not> js_positive (forwardingGB nothing_to_bill)"
    by (simp add: nothing_to_bill_def quantity_eval more_double_values)
  then have c: "addToQuote sample_catalog nothing_to_bill = []"
    using addToQuote_calls [of sample_catalog nothing_to_bill] by blast
  show ?thesis
    by (intro conjI a b c)
qed

section \<open>The lookups return the first match\<close>






section \<open>A retention window the catalog does not offer\<close>

lemma js_mul_zero_price: "is_finite q \<Longrightarrow> js_mul q (Num 0) = Num 0"
  by (cases q) simp_all

lemma notFoundWarning_iff:
  "notFoundWarning products w \<longleftrightarrow>
     (\<forall>p \<in> set products. \<not> ingestionCriteria p)
     \<or> (\<forall>p \<in> set products. \<not> indexedCriteria (retentionDays w) p)"
  by (auto simp: notFoundWarning_def ingestionProduct_def indexedProduct_def find_None_iff)

text \<open>
  Claim C6, as stated, does not hold, for two reasons. The lookup lower-cases the
  billing unit before it looks for the token: no billing unit of the small catalog
  contains \<open>7-day\<close>, one reads \<open>7-Day\<close>, and that record is the match for a retention of
  7 days. And a cost of 0 needs a finite quantity: with no record for 30 days and a
  volume of \<open>2^1023\<close> GB, the product by 1024 overflows, the indexed quantity is
  infinite, the price is 0 and their product, the category cost, is \<open>NaN\<close>.
\<close>

theorem unmatched_cost_counterexample:
  "filter (\<lambda>p. str_includes (billing_unit p) (retentionToken Days7)) sample_catalog = []
   \<and> indexedProduct sample_catalog (initial\<lparr>retentionDays := Days7\<rparr>)
       = Some (sample_catalog ! 2)
   \<and> filter (\<lambda>p. str_includes (toLowerCase (billing_unit p)) (retentionToken Days30))
         sample_catalog = []
   \<and> indexedProduct sample_catalog
         (initial\<lparr>retentionDays := Days30, ingestedLogsGB := Num (2 ^ 1023)\<rparr>) = None
   \<and> indexedLogsInMillions
         (initial\<lparr>retentionDays := Days30, ingestedLogsGB := Num (2 ^ 1023)\<rparr>) = PosInf
   \<and> indexedCost sample_catalog
         (initial\<lparr>retentionDays := Days30, ingestedLogsGB := Num (2 ^ 1023)\<rparr>) = NaN"
proof -
  let ?w = "initial\<lparr>retentionDays := Days30, ingestedLogsGB := Num (2 ^ 1023)\<rparr>"
  have s: "filter (\<lambda>p. str_includes (billing_unit p) (retentionToken Days7)) sample_catalog
      = []"
    by (simp add: sample_catalog_def str_includes_def sublist_code)
  have t: "indexedProduct sample_catalog (initial\<lparr>retentionDays := Days7\<rparr>)
      = Some (sample_catalog ! 2)"
    by (simp add: catalog_eval)
  have a: "filter (\<lambda>p. str_includes (toLowerCase (billing_unit p)) (retentionToken Days30))
     sample_catalog = []"
    by (simp add: catalog_eval)
  have b: "indexedProduct sample_catalog ?w = None"
    by (simp add: catalog_eval)
  have c: "indexedLogsInMillions ?w = PosInf"
    by (simp add: quantity_eval toDouble_overflow more_double_values)
  have d: "indexedCost sample_catalog ?w = NaN"
    unfolding indexedCost_def indexedPrice_def b c by (simp add: parsePrice_absent)
  show ?thesis
    by (intro conjI s t a b c d)
qed

text \<open>
  Claim C6, amended. When no record's lower-cased billing unit contains the token of
  the chosen retention window, the indexed product is absent, its price is 0, its cost
  is 0 whenever the indexed quantity is finite, and the warning is shown. The warning
  is shown exactly when no record satisfies the ingestion criteria or no record
  satisfies the indexed criteria for the chosen retention; the add-ons' switches and
  counts do not affect it.
\<close>

theorem unmatched_retention:
  "((\<forall>p \<in> set products.
        \<not> str_includes (toLowerCase (billing_unit p)) (retentionToken (retentionDays w)))
      \<longrightarrow> indexedProduct products w = None
        \<and> indexedPrice products w = Num 0
        \<and> (is_finite (indexedLogsInMillions w) \<longrightarrow> indexedCost products w = Num 0)
        \<and> notFoundWarning products w)
   \<and> (notFoundWarning products w \<longleftrightarrow>
        (\<forall>p \<in> set products. \<not> ingestionCriteria p)
        \<or> (\<forall>p \<in> set products. \<not> indexedCriteria (retentionDays w) p))
   \<and> notFoundWarning products
        (w\<lparr>enableFlexStarter := ea, enableFlexStorage := eb, enableForwarding := ec,
           flexStarterEvents := na, flexStorageEvents := nb, forwardingGB := nc\<rparr>)
       = notFoundWarning products w"
proof -
  have miss: "indexedProduct products w = None
        \<and> indexedPrice products w = Num 0
        \<and> (is_finite (indexedLogsInMillions w) \<longrightarrow> indexedCost products w = Num 0)
        \<and> notFoundWarning products w"
    if none: "\<forall>p \<in> set products.
        \<not> str_includes (toLowerCase (billing_unit p)) (retentionToken (retentionDays w))"
  proof -
    from none have "\<forall>p \<in> set products. \<not> indexedCriteria (retentionDays w) p"
      by (simp add: indexedCriteria_def)
    then have absent: "indexedProduct products w = None"
      by (simp add: indexedProduct_def find_None_iff)
    then have price: "indexedPrice products w = Num 0"
      by (simp add: indexedPrice_def parsePrice_absent)
    have "indexedCost products w = Num 0" if "is_finite (indexedLogsInMillions w)"
      using that price by (simp add: indexedCost_def js_mul_zero_price)
    with absent price show ?thesis
      by (simp add: notFoundWarning_def)
  qed
  have flags: "notFoundWarning products
        (w\<lparr>enableFlexStarter := ea, enableFlexStorage := eb, enableForwarding := ec,
           flexStarterEvents := na, flexStorageEvents := nb, forwardingGB := nc\<rparr>)
       = notFoundWarning products w"
    by (simp add: notFoundWarning_def indexedProduct_def)
  from miss have miss_imp: "(\<forall>p \<in> set products.
        \<not> str_includes (toLowerCase (billing_unit p)) (retentionToken (retentionDays w)))
      \<longrightarrow> indexedProduct products w = None
        \<and> indexedPrice products w = Num 0
        \<and> (is_finite (indexedLogsInMillions w) \<longrightarrow> indexedCost products w = Num 0)
        \<and> notFoundWarning products w"
    by blast
  show ?thesis
    by (intro conjI miss_imp notFoundWarning_iff flags)
qed

theorem unmatched_retention_witness:
  "indexedProduct sample_catalog (initial\<lparr>retentionDays := Days30\<rparr>) = None
   \<and> indexedPrice sample_catalog (initial\<lparr>retentionDays := Days30\<rparr>) = Num 0
   \<and> indexedCost sample_catalog (initial\<lparr>retentionDays := Days30\<rparr>) = Num 0
   \<and> notFoundWarning sample_catalog (initial\<lparr>retentionDays := Days30\<rparr>)
   \<and> \<not> notFoundWarning sample_catalog initial
   \<and> \<not> notFoundWarning sample_catalog
         (initial\<lparr>enableFlexStarter := True, enableFlexStorage := True,
            enableForwarding := False, flexStarterEvents := Num 0,
            flexStorageEvents := Num 7, forwardingGB := NaN\<rparr>)"
proof -
  let ?w = "initial\<lparr>retentionDays := Days30\<rparr>"
  note rule = unmatched_retention [where products = sample_catalog and w = ?w]
  have none: "\<forall>p \<in> set sample_catalog.
      \<not> str_includes (toLowerCase (billing_unit p)) (retentionToken (retentionDays ?w))"
    by (simp add: catalog_eval)
  have "indexedLogsInMillions ?w = indexedLogsInMillions initial"
    by (simp add: quantity_eval)
  then have fin: "is_finite (indexedLogsInMillions ?w)"
    by (simp add: initial_quantities)
  from rule none fin have a: "indexedProduct sample_catalog ?w = None"
    "indexedPrice sample_catalog ?w = Num 0" "indexedCost sample_catalog ?w = Num 0"
    "notFoundWarning sample_catalog ?w"
    by blast+
  have found: "\<not> notFoundWarning sample_catalog initial"
    by (simp add: notFoundWarning_def sample_lookups)
  have "notFoundWarning sample_catalog
         (initial\<lparr>enableFlexStarter := True, enableFlexStorage := True,
            enableForwarding := False, flexStarterEvents := Num 0,
            flexStorageEvents := Num 7, forwardingGB := NaN\<rparr>)
        = notFoundWarning sample_catalog initial"
    using unmatched_retention [where products = sample_catalog and w = initial and ea = True
        and eb = True and ec = False and na = "Num 0" and nb = "Num 7" and nc = NaN]
    by blast
  with found have b: "\<not> notFoundWarning sample_catalog
         (initial\<lparr>enableFlexStarter := True, enableFlexStorage := True,
            enableForwarding := False, flexStarterEvents := Num 0,
            flexStorageEvents := Num 7, forwardingGB := NaN\<rparr>)"
    by simp
  show ?thesis
    by (intro conjI a found b)
qed

section \<open>Quantities that are not positive\<close>

lemma toDouble_not_negative: "0 \<le> x \<Longrightarrow> \<not> js_negative (toDouble x)"
  using toDouble_nonneg [of x] by auto

lemma js_mul_not_negative:
  assumes "\<not> js_negative x" and "\<not> js_negative y"
  shows "\<not> js_negative (js_mul x y)"
proof (cases x)
  case (Num a)
  with assms(1) have a: "0 \<le> a" by simp
  show ?thesis
  proof (cases y)
    case (Num b)
    with assms(2) have "0 \<le> b" by simp
    with a have "0 \<le> a * b" by simp
    with \<open>x = Num a\<close> Num show ?thesis
      by (simp add: toDouble_not_negative)
  next
    case PosInf
    with \<open>x = Num a\<close> a show ?thesis by simp
  next
    case NegInf
    with assms(2) show ?thesis by simp
  next
    case NaN
    with \<open>x = Num a\<close> show ?thesis by simp
  qed
next
  case PosInf
  show ?thesis
  proof (cases y)
    case (Num b)
    with assms(2) have "0 \<le> b" by simp
    with PosInf Num show ?thesis by simp
  next
    case NegInf
    with assms(2) show ?thesis by simp
  qed (use PosInf in simp_all)
next
  case NegInf
  with assms(1) show ?thesis by simp
next
  case NaN
  then show ?thesis by simp
qed

lemma js_div_not_negative:
  assumes "\<not> js_negative x" and "0 < b"
  shows "\<not> js_negative (js_div x (Num b))"
proof (cases x)
  case (Num a)
  with assms(1) have "0 \<le> a" by simp
  with assms(2) have "0 \<le> a / b" by simp
  with Num assms(2) show ?thesis
    by (simp add: toDouble_not_negative)
next
  case PosInf
  with assms(2) show ?thesis by simp
next
  case NegInf
  with assms(1) show ?thesis by simp
next
  case NaN
  then show ?thesis by simp
qed

lemma quantities_not_negative:
  assumes "ingestedLogsGB w = Num g" and "0 \<le> g" and "avgLogSizeKB w = Num a" and "0 < a"
    and "indexingPercentage w = Num p" and "0 \<le> p"
  shows "\<not> js_negative (totalLogsPerMonth w) \<and> \<not> js_negative (indexedLogsCount w)
         \<and> \<not> js_negative (indexedLogsInMillions w)"
proof -
  have g: "\<not> js_negative (Num g)" and p: "\<not> js_negative (Num p)"
    and k: "\<not> js_negative (Num 1024)"
    using assms(2,6) by simp_all
  have "\<not> js_negative (js_mul (js_mul (Num g) (Num 1024)) (Num 1024))"
    by (intro js_mul_not_negative g k)
  then have t: "\<not> js_negative (totalLogsPerMonth w)"
    unfolding totalLogsPerMonth_def assms(1,3) using assms(4) by (rule js_div_not_negative)
  have "\<not> js_negative (js_div (Num p) (Num 100))"
    using p by (rule js_div_not_negative) simp
  with t have c: "\<not> js_negative (indexedLogsCount w)"
    unfolding indexedLogsCount_def assms(5) by (rule js_mul_not_negative)
  then have "\<not> js_negative (indexedLogsInMillions w)"
    unfolding indexedLogsInMillions_def by (rule js_div_not_negative) simp
  with t c show ?thesis by simp
qed

lemma no_volume:
  assumes "ingestedLogsGB w = Num 0" and "avgLogSizeKB w = Num a" and "a \<noteq> 0"
  shows "totalLogsPerMonth w = Num 0"
  using assms by (simp add: totalLogsPerMonth_def)

lemma nothing_indexed:
  assumes "totalLogsPerMonth w = Num 0 \<and> is_finite (js_div (indexingPercentage w) (Num 100))
           \<or> is_finite (totalLogsPerMonth w) \<and> indexingPercentage w = Num 0"
  shows "indexedLogsCount w = Num 0 \<and> indexedLogsInMillions w = Num 0"
proof -
  have "indexedLogsCount w = Num 0"
    using assms
  proof
    assume h: "totalLogsPerMonth w = Num 0
        \<and> is_finite (js_div (indexingPercentage w) (Num 100))"
    then obtain f where "js_div (indexingPercentage w) (Num 100) = Num f"
      by (cases "js_div (indexingPercentage w) (Num 100)") simp_all
    with h show ?thesis
      by (simp add: indexedLogsCount_def)
  next
    assume h: "is_finite (totalLogsPerMonth w) \<and> indexingPercentage w = Num 0"
    then obtain t where "totalLogsPerMonth w = Num t"
      by (cases "totalLogsPerMonth w") simp_all
    with h show ?thesis
      by (simp add: indexedLogsCount_def)
  qed
  then show ?thesis
    by (simp add: indexedLogsInMillions_def)
qed

text \<open>
  Claim C8, as stated, does not hold: a negative volume gives a negative ingestion
  quantity and cost and a negative indexed quantity, not 0; and an average entry size
  of 0 gives an infinite indexed quantity, for which an item is built.
\<close>

theorem negative_quantity_counterexample:
  "ingestionCost sample_catalog
     (initial\<lparr>ingestedLogsGB := Num (- 1), avgLogSizeKB := Num 1,
        indexingPercentage := Num 100\<rparr>)
     = Num (- (3602879701896397 / 36028797018963968))
   \<and> indexedLogsInMillions
       (initial\<lparr>ingestedLogsGB := Num (- 1), avgLogSizeKB := Num 1,
          indexingPercentage := Num 100\<rparr>)
     = Num (- (4722366482869645 / 4503599627370496))
   \<and> indexedLogsInMillions (initial\<lparr>avgLogSizeKB := Num 0\<rparr>) = PosInf
   \<and> addToQuote_items sample_catalog (initial\<lparr>avgLogSizeKB := Num 0\<rparr>)
       = [\<lparr>item_product = sample_catalog ! 1, quantity = Num 100\<rparr>,
          \<lparr>item_product = sample_catalog ! 3, quantity = PosInf\<rparr>]"
proof -
  have a: "ingestionCost sample_catalog
     (initial\<lparr>ingestedLogsGB := Num (- 1), avgLogSizeKB := Num 1,
        indexingPercentage := Num 100\<rparr>)
     = Num (- (3602879701896397 / 36028797018963968))"
    by (simp add: ingestionCost_def sample_prices initial_def more_double_values)
  have b: "indexedLogsInMillions
       (initial\<lparr>ingestedLogsGB := Num (- 1), avgLogSizeKB := Num 1,
          indexingPercentage := Num 100\<rparr>)
     = Num (- (4722366482869645 / 4503599627370496))"
    by (simp add: quantity_eval double_values more_double_values)
  have c: "indexedLogsInMillions (initial\<lparr>avgLogSizeKB := Num 0\<rparr>) = PosInf"
    by (simp add: quantity_eval more_double_values)
  have same: "indexedProduct sample_catalog (initial\<lparr>avgLogSizeKB := Num 0\<rparr>)
      = indexedProduct sample_catalog initial"
    by (simp add: indexedProduct_def initial_def)
  have fields: "ingestedLogsGB (initial\<lparr>avgLogSizeKB := Num 0\<rparr>) = Num 100"
    "\<not> enableFlexStarter (initial\<lparr>avgLogSizeKB := Num 0\<rparr>)"
    "\<not> enableFlexStorage (initial\<lparr>avgLogSizeKB := Num 0\<rparr>)"
    "\<not> enableForwarding (initial\<lparr>avgLogSizeKB := Num 0\<rparr>)"
    by (simp_all add: initial_def)
  have d: "addToQuote_items sample_catalog (initial\<lparr>avgLogSizeKB := Num 0\<rparr>)
       = [\<lparr>item_product = sample_catalog ! 1, quantity = Num 100\<rparr>,
          \<lparr>item_product = sample_catalog ! 3, quantity = PosInf\<rparr>]"
    by (simp add: addToQuote_items_entries sample_lookups same c quote_entry_def fields)
  show ?thesis
    by (intro conjI a b c d)
qed

text \<open>
  Claim C8, amended. A category whose billing quantity (the ingested volume, the indexed
  events in millions, an add-on's count) is not strictly positive, be it zero, negative
  or \<open>NaN\<close>, has no quote item: the items are the five categories' entries and such a
  quantity gives no entry. No derived quantity is negative when the volume is at least
  0, the entry size is above 0 and the percentage is at least 0. With a volume of 0 and
  an entry size other than 0 the number of entries is 0; the indexed count and the
  indexed quantity are 0 when the number of entries is 0 and the indexed fraction is
  finite, and when the percentage is 0 and the number of entries is finite.
\<close>

theorem nonpositive_quantities:
  "addToQuote_items products w =
     quote_entry (ingestionProduct products) True (ingestedLogsGB w)
     @ quote_entry (indexedProduct products w) True (indexedLogsInMillions w)
     @ quote_entry (flexStarterProduct products) (enableFlexStarter w) (flexStarterEvents w)
     @ quote_entry (flexStorageProduct products) (enableFlexStorage w) (flexStorageEvents w)
     @ quote_entry (forwardingProduct products) (enableForwarding w) (forwardingGB w)
   \<and> (\<not> js_positive q \<longrightarrow> quote_entry m enabled q = [])
   \<and> (ingestedLogsGB w = Num g \<and> 0 \<le> g \<and> avgLogSizeKB w = Num a \<and> 0 < a
        \<and> indexingPercentage w = Num p \<and> 0 \<le> p
      \<longrightarrow> \<not> js_negative (totalLogsPerMonth w) \<and> \<not> js_negative (indexedLogsCount w)
        \<and> \<not> js_negative (indexedLogsInMillions w))
   \<and> (ingestedLogsGB w = Num 0 \<and> avgLogSizeKB w = Num b \<and> b \<noteq> 0
      \<longrightarrow> totalLogsPerMonth w = Num 0)
   \<and> (totalLogsPerMonth w = Num 0 \<and> is_finite (js_div (indexingPercentage w) (Num 100))
      \<longrightarrow> indexedLogsCount w = Num 0 \<and> indexedLogsInMillions w = Num 0)
   \<and> (is_finite (totalLogsPerMonth w) \<and> indexingPercentage w = Num 0
      \<longrightarrow> indexedLogsCount w = Num 0 \<and> indexedLogsInMillions w = Num 0)"
proof -
  have no_entry: "\<not> js_positive q \<longrightarrow> quote_entry m enabled q = []"
    by (simp add: quote_entry_empty)
  have not_negative: "ingestedLogsGB w = Num g \<and> 0 \<le> g \<and> avgLogSizeKB w = Num a \<and> 0 < a
        \<and> indexingPercentage w = Num p \<and> 0 \<le> p
      \<longrightarrow> \<not> js_negative (totalLogsPerMonth w) \<and> \<not> js_negative (indexedLogsCount w)
        \<and> \<not> js_negative (indexedLogsInMillions w)"
    using quantities_not_negative [of w g a p] by blast
  have zero: "ingestedLogsGB w = Num 0 \<and> avgLogSizeKB w = Num b \<and> b \<noteq> 0
      \<longrightarrow> totalLogsPerMonth w = Num 0"
    using no_volume [of w b] by blast
  have first: "totalLogsPerMonth w = Num 0
        \<and> is_finite (js_div (indexingPercentage w) (Num 100))
      \<longrightarrow> indexedLogsCount w = Num 0 \<and> indexedLogsInMillions w = Num 0"
    using nothing_indexed [of w] by blast
  have second: "is_finite (totalLogsPerMonth w) \<and> indexingPercentage w = Num 0
      \<longrightarrow> indexedLogsCount w = Num 0 \<and> indexedLogsInMillions w = Num 0"
    using nothing_indexed [of w] by blast
  show ?thesis
    by (intro conjI addToQuote_items_entries no_entry not_negative zero first second)
qed

theorem nonpositive_quantities_witness:
  "totalLogsPerMonth nothing_to_bill = Num 0
   \<and> indexedLogsInMillions nothing_to_bill = Num 0
   \<and> indexedLogsInMillions (initial\<lparr>indexingPercentage := Num 0\<rparr>) = Num 0
   \<and> addToQuote_items sample_catalog
       (nothing_to_bill\<lparr>enableFlexStarter := True, enableFlexStorage := True,
          enableForwarding := True\<rparr>) = []
   \<and> \<not> js_negative (totalLogsPerMonth initial)
   \<and> \<not> js_negative (indexedLogsCount initial)
   \<and> \<not> js_negative (indexedLogsInMillions initial)"
proof -
  let ?w = "nothing_to_bill\<lparr>enableFlexStarter := True, enableFlexStorage := True,
          enableForwarding := True\<rparr>"
  let ?z = "initial\<lparr>indexingPercentage := Num 0\<rparr>"
  have fields: "ingestedLogsGB nothing_to_bill = Num 0 \<and> avgLogSizeKB nothing_to_bill = Num 2
      \<and> (2::rat) \<noteq> 0"
    by (simp add: nothing_to_bill_def initial_def)
  have t: "totalLogsPerMonth nothing_to_bill = Num 0"
    using nonpositive_quantities [where w = nothing_to_bill and b = 2] fields by blast
  have "is_finite (js_div (indexingPercentage nothing_to_bill) (Num 100))"
    by (simp add: nothing_to_bill_def initial_def more_double_values)
  with t have a: "indexedLogsInMillions nothing_to_bill = Num 0"
    using nonpositive_quantities [where w = nothing_to_bill] by blast
  have "totalLogsPerMonth ?z = totalLogsPerMonth initial"
    by (simp add: totalLogsPerMonth_def)
  then have "is_finite (totalLogsPerMonth ?z) \<and> indexingPercentage ?z = Num 0"
    by (simp add: initial_quantities)
  then have z: "indexedLogsInMillions ?z = Num 0"
    using nonpositive_quantities [where w = ?z] by blast
  have same: "indexedLogsInMillions ?w = indexedLogsInMillions nothing_to_bill"
    by (simp add: quantity_eval)
  have non: "\<not> js_positive (ingestedLogsGB ?w)" "\<not> js_positive (indexedLogsInMillions ?w)"
    "\<not> js_positive (flexStarterEvents ?w)" "\<not> js_positive (flexStorageEvents ?w)"
    "\<not> js_positive (forwardingGB ?w)"
    unfolding same a by (simp_all add: nothing_to_bill_def initial_def)
  note entry = nonpositive_quantities [where products = sample_catalog and w = ?w]
  have e1: "quote_entry (ingestionProduct sample_catalog) True (ingestedLogsGB ?w) = []"
    using entry [where q = "ingestedLogsGB ?w"] non(1) by blast
  have e2: "quote_entry (indexedProduct sample_catalog ?w) True (indexedLogsInMillions ?w) = []"
    using entry [where q = "indexedLogsInMillions ?w"] non(2) by blast
  have e3: "quote_entry (flexStarterProduct sample_catalog) (enableFlexStarter ?w)
      (flexStarterEvents ?w) = []"
    using entry [where q = "flexStarterEvents ?w"] non(3) by blast
  have e4: "quote_entry (flexStorageProduct sample_catalog) (enableFlexStorage ?w)
      (flexStorageEvents ?w) = []"
    using entry [where q = "flexStorageEvents ?w"] non(4) by blast
  have e5: "quote_entry (forwardingProduct sample_catalog) (enableForwarding ?w)
      (forwardingGB ?w) = []"
    using entry [where q = "forwardingGB ?w"] non(5) by blast
  have "addToQuote_items sample_catalog ?w =
     quote_entry (ingestionProduct sample_catalog) True (ingestedLogsGB ?w)
     @ quote_entry (indexedProduct sample_catalog ?w) True (indexedLogsInMillions ?w)
     @ quote_entry (flexStarterProduct sample_catalog) (enableFlexStarter ?w)
         (flexStarterEvents ?w)
     @ quote_entry (flexStorageProduct sample_catalog) (enableFlexStorage ?w)
         (flexStorageEvents ?w)
     @ quote_entry (forwardingProduct sample_catalog) (enableForwarding ?w) (forwardingGB ?w)"
    using entry by blast
  then have b: "addToQuote_items sample_catalog ?w = []"
    unfolding e1 e2 e3 e4 e5 by simp
  have start: "ingestedLogsGB initial = Num 100 \<and> (0::rat) \<le> 100
      \<and> avgLogSizeKB initial = Num 2 \<and> (0::rat) < 2
      \<and> indexingPercentage initial = Num 15 \<and> (0::rat) \<le> 15"
    by (simp add: initial_def)
  have c: "\<not> js_negative (totalLogsPerMonth initial)"
    "\<not> js_negative (indexedLogsCount initial)"
    "\<not> js_negative (indexedLogsInMillions initial)"
    using nonpositive_quantities [where w = initial and g = 100 and a = 2 and p = 15]
      start by blast+
  show ?thesis
    by (intro conjI t a z b c)
qed

end
